theory Spec2Isabelle
  imports Main
begin

section \<open>Values of the program\<close>

text \<open>
  The exceptions the weight-loading loop of \<^verbatim>\<open>examples/stable_diffusion.py\<close> can meet:
  the three classes its \<^verbatim>\<open>except\<close> clause names, the failure of its \<^verbatim>\<open>assert\<close>, and
  \<^verbatim>\<open>TypeError\<close> as an example of a class the clause does not name.
\<close>

datatype exn = AttributeError | KeyError | IndexError | TypeError | AssertionError

datatype np_dtype = Float16 | Float32 | Float64 | Int64 | UInt8

text \<open>
  An array: its shape (a tuple of dimensions), its element type and its buffer. The
  buffer's type \<open>'a\<close> is left open: the numeric contents belong to numpy.
\<close>

record 'a ndarray =
  shape :: "nat list"
  dtype :: np_dtype
  data :: 'a

type_synonym addr = nat

text \<open>
  The objects a model is made of. A \<open>Tensor\<close> is a reference to a tensor object of the
  heap; \<open>PyObj\<close> is a class instance or namedtuple (its attributes), \<open>PyDict\<close> a dict
  with string keys, \<open>PyList\<close> a list, \<open>PyNone\<close> is \<^verbatim>\<open>None\<close>, and \<open>Opaque\<close> stands for
  the numbers and functions stored in the tree (\<^verbatim>\<open>num_groups\<close>, \<^verbatim>\<open>Tensor.silu\<close>,
  \<^verbatim>\<open>lambda x: x\<close>).
\<close>

datatype pyobj =
    Tensor addr
  | PyObj "(string \<times> pyobj) list"
  | PyDict "(string \<times> pyobj) list"
  | PyList "pyobj list"
  | PyNone
  | Opaque

text \<open>
  The state the loop works on: the contents of every tensor object, and the lines
  written by \<^verbatim>\<open>print\<close>. A line holds the three values the loop prints: the shape of the
  checkpoint tensor, \<^verbatim>\<open>w\<close> and the key.
\<close>

type_synonym line = "nat list \<times> pyobj \<times> string"

record 'a pystate =
  heap :: "addr \<Rightarrow> 'a ndarray"
  stdout :: "line list"

section \<open>Library calls of the loop\<close>

text \<open>
  \<^verbatim>\<open>v.astype(t)\<close> of numpy: the same shape, element type \<open>t\<close>, the buffer converted.
  The conversion of a buffer, \<open>cast\<close>, is a parameter.
\<close>

definition astype :: "(np_dtype \<Rightarrow> np_dtype \<Rightarrow> 'a \<Rightarrow> 'a) \<Rightarrow> np_dtype \<Rightarrow> 'a ndarray \<Rightarrow> 'a ndarray" where
  "astype cast t v = \<lparr>shape = shape v, dtype = t, data = cast (dtype v) t (data v)\<rparr>"

text \<open>
  Modelled from the spec: \<^verbatim>\<open>Tensor.assign\<close> (tinygrad/tensor.py is not among the
  sources). Spec 4.2: "assign the tensor's data into the leaf (overwriting any
  placeholder allocation)"; the leaf is mutated in place, no other object changes.
\<close>

definition Tensor_assign :: "(addr \<Rightarrow> 'a ndarray) \<Rightarrow> addr \<Rightarrow> 'a ndarray \<Rightarrow> (addr \<Rightarrow> 'a ndarray)" where
  "Tensor_assign h a x = h(a := x)"

section \<open>The weight-loading loop\<close>

text \<open>
  \<^verbatim>\<open>
  for k,v in dat['state_dict'].items():
    try:
      w = get_child(model, k)
    except (AttributeError, KeyError, IndexError):
      w = None
    print(f"{str(v.shape):30s}", w, k)
    if w is not None:
      assert w.shape == v.shape
      w.assign(v.astype(np.float32))
  \<close>
  \<^verbatim>\<open>get_child\<close> is imported from \<^verbatim>\<open>extra.utils\<close>; the loop takes it as the parameter
  \<open>gc\<close>: a function from the model and a key to an object, or to the exception raised.
\<close>

definition try_get_child :: "(pyobj \<Rightarrow> string \<Rightarrow> exn + pyobj) \<Rightarrow> pyobj \<Rightarrow> string \<Rightarrow> exn + pyobj" where
  "try_get_child gc model k =
     (case gc model k of
        Inl e \<Rightarrow> (if e = AttributeError \<or> e = KeyError \<or> e = IndexError then Inr PyNone else Inl e)
      | Inr w \<Rightarrow> Inr w)"

text \<open>
  One iteration. The result is the exception that ends the program (if any) and the
  state reached. \<^verbatim>\<open>w.shape\<close> on an object that is not a tensor raises
  \<^verbatim>\<open>AttributeError\<close> outside the \<^verbatim>\<open>try\<close>: no class of the file has a \<^verbatim>\<open>shape\<close>
  attribute, and lists, dicts, numbers and functions have none.
\<close>

definition load_entry ::
  "(pyobj \<Rightarrow> string \<Rightarrow> exn + pyobj) \<Rightarrow> (np_dtype \<Rightarrow> np_dtype \<Rightarrow> 'a \<Rightarrow> 'a) \<Rightarrow> pyobj
     \<Rightarrow> string \<times> 'a ndarray \<Rightarrow> 'a pystate \<Rightarrow> exn option \<times> 'a pystate" where
  "load_entry gc cast model kv s =
     (case kv of (k, v) \<Rightarrow>
       (case try_get_child gc model k of
          Inl e \<Rightarrow> (Some e, s)
        | Inr w \<Rightarrow>
            (let s1 = s\<lparr>stdout := stdout s @ [(shape v, w, k)]\<rparr> in
             (case w of
                PyNone \<Rightarrow> (None, s1)
              | Tensor a \<Rightarrow>
                  (if shape (heap s1 a) = shape v
                   then (None, s1\<lparr>heap := Tensor_assign (heap s1) a (astype cast Float32 v)\<rparr>)
                   else (Some AssertionError, s1))
              | _ \<Rightarrow> (Some AttributeError, s1)))))"

text \<open>
  The loop over the items of the checkpoint, in their stored order: an association
  list. An exception ends it at once.
\<close>

fun load_weights ::
  "(pyobj \<Rightarrow> string \<Rightarrow> exn + pyobj) \<Rightarrow> (np_dtype \<Rightarrow> np_dtype \<Rightarrow> 'a \<Rightarrow> 'a) \<Rightarrow> pyobj
     \<Rightarrow> (string \<times> 'a ndarray) list \<Rightarrow> 'a pystate \<Rightarrow> exn option \<times> 'a pystate" where
  "load_weights gc cast model [] s = (None, s)"
| "load_weights gc cast model (kv # kvs) s =
     (case load_entry gc cast model kv s of
        (None, s') \<Rightarrow> load_weights gc cast model kvs s'
      | (Some e, s') \<Rightarrow> (Some e, s'))"

text \<open>
  The line an iteration prints for an entry, when it gets as far as \<^verbatim>\<open>print\<close>: the shape
  of the checkpoint tensor, \<^verbatim>\<open>w\<close> (what \<^verbatim>\<open>get_child\<close> returned, or \<^verbatim>\<open>None\<close> after a
  caught exception) and the key.
\<close>

definition print_line :: "(pyobj \<Rightarrow> string \<Rightarrow> exn + pyobj) \<Rightarrow> pyobj \<Rightarrow> string \<times> 'a ndarray \<Rightarrow> line" where
  "print_line gc model kv =
     (shape (snd kv), (case try_get_child gc model (fst kv) of Inl e \<Rightarrow> PyNone | Inr w \<Rightarrow> w), fst kv)"

section \<open>Path resolution\<close>

text \<open>
  \<^verbatim>\<open>key.split('.')\<close>: the segments of a key between its dots; the empty key has one empty
  segment.
\<close>

fun split_dot :: "string \<Rightarrow> string list" where
  "split_dot [] = [[]]"
| "split_dot (c # cs) =
     (if c = CHR ''.'' then [] # split_dot cs
      else (case split_dot cs of [] \<Rightarrow> [[c]] | seg # segs \<Rightarrow> (c # seg) # segs))"

text \<open>
  The segment grammar of spec 4.1: "each segment either an identifier (attribute name)
  or a non-negative integer (sequence index)".
\<close>

definition is_digit :: "char \<Rightarrow> bool" where
  "is_digit c = (c \<in> set ''0123456789'')"

definition is_ident_start :: "char \<Rightarrow> bool" where
  "is_ident_start c = (c \<in> set ''abcdefghijklmnopqrstuvwxyzABCDEFGHIJKLMNOPQRSTUVWXYZ_'')"

definition is_index :: "string \<Rightarrow> bool" where
  "is_index seg = (seg \<noteq> [] \<and> list_all is_digit seg)"

definition is_identifier :: "string \<Rightarrow> bool" where
  "is_identifier seg =
     (case seg of [] \<Rightarrow> False
      | c # cs \<Rightarrow> is_ident_start c \<and> list_all (\<lambda>d. is_ident_start d \<or> is_digit d) cs)"

definition valid_segment :: "string \<Rightarrow> bool" where
  "valid_segment seg = (is_identifier seg \<or> is_index seg)"

definition valid_path :: "string \<Rightarrow> bool" where
  "valid_path k = list_all valid_segment (split_dot k)"

definition index_of :: "string \<Rightarrow> nat" where
  "index_of seg = foldl (\<lambda>n c. 10 * n + (of_char c - 48)) 0 seg"

text \<open>
  Modelled from the spec: \<^verbatim>\<open>get_child\<close> (extra/utils.py is not among the sources).
  Spec 4.1: "given the model tree root and a dotted/indexed path string, navigate
  through named attributes and sequence indices to locate the target leaf node", the
  output "a reference to the resolved leaf, or a resolution failure"; it "signals a
  not found failure when any segment does not exist as an attribute or is out of range
  as an index" and "a wrong kind failure when a segment expects a composite but finds a
  leaf, or vice versa".

  A segment that is missing raises the exception of the container asked:
  \<^verbatim>\<open>AttributeError\<close> for an object (and for a name asked of a list), \<^verbatim>\<open>KeyError\<close> for a
  dict, \<^verbatim>\<open>IndexError\<close> for an index past the end of a list. An integer segment
  addresses sequences only. The spec names no exception class for the wrong-kind
  failure: it is the parameter \<open>wk\<close>.
\<close>

fun child :: "exn \<Rightarrow> pyobj \<Rightarrow> string \<Rightarrow> exn + pyobj" where
  "child wk (PyList xs) seg =
     (if is_index seg
      then (if index_of seg < length xs then Inr (xs ! index_of seg) else Inl IndexError)
      else Inl AttributeError)"
| "child wk (PyObj fs) seg =
     (if is_index seg then Inl AttributeError
      else (case map_of fs seg of None \<Rightarrow> Inl AttributeError | Some c \<Rightarrow> Inr c))"
| "child wk (PyDict fs) seg =
     (if is_index seg then Inl KeyError
      else (case map_of fs seg of None \<Rightarrow> Inl KeyError | Some c \<Rightarrow> Inr c))"
| "child wk (Tensor a) seg = Inl wk"
| "child wk PyNone seg = Inl wk"
| "child wk Opaque seg = Inl wk"

fun walk :: "exn \<Rightarrow> pyobj \<Rightarrow> string list \<Rightarrow> exn + pyobj" where
  "walk wk node [] = (case node of Tensor a \<Rightarrow> Inr (Tensor a) | _ \<Rightarrow> Inl wk)"
| "walk wk node (seg # segs) =
     (case child wk node seg of Inl e \<Rightarrow> Inl e | Inr c \<Rightarrow> walk wk c segs)"

definition get_child :: "exn \<Rightarrow> pyobj \<Rightarrow> string \<Rightarrow> exn + pyobj" where
  "get_child wk model k = walk wk model (split_dot k)"

text \<open>
  A model whose attribute names and dict keys are all identifiers, as every model the
  file builds is.
\<close>

fun names_ok :: "pyobj \<Rightarrow> bool" where
  "names_ok (PyObj fs) = (\<forall>p \<in> set fs. is_identifier (fst p) \<and> names_ok (snd p))"
| "names_ok (PyDict fs) = (\<forall>p \<in> set fs. is_identifier (fst p) \<and> names_ok (snd p))"
| "names_ok (PyList xs) = (\<forall>c \<in> set xs. names_ok c)"
| "names_ok (Tensor a) = True"
| "names_ok PyNone = True"
| "names_ok Opaque = True"

section \<open>Building the model\<close>

text \<open>
  The constructors allocate tensor objects: they pass along the next free address and
  the heap.

  Modelled from the spec: \<^verbatim>\<open>Tensor.empty\<close> (tinygrad/tensor.py is not among the
  sources). Spec 3: "the model tree is constructed once (parameters allocated but
  uninitialized)": a new tensor object of the shape asked, its element type and buffer
  whatever the memory held.
\<close>

type_synonym 'a alloc = "addr \<times> (addr \<Rightarrow> 'a ndarray)"

definition Tensor_empty :: "nat list \<Rightarrow> 'a alloc \<Rightarrow> pyobj \<times> 'a alloc" where
  "Tensor_empty shp st =
     (case st of (n, h) \<Rightarrow> (Tensor n, (Suc n, h(n := (h n)\<lparr>shape := shp\<rparr>))))"

definition Normalize :: "nat \<Rightarrow> nat \<Rightarrow> 'a alloc \<Rightarrow> pyobj \<times> 'a alloc" where
  "Normalize in_channels num_groups st =
     (case Tensor_empty [in_channels] st of (weight, st1) \<Rightarrow>
      (case Tensor_empty [in_channels] st1 of (bias, st2) \<Rightarrow>
        (PyObj [(''weight'', weight), (''bias'', bias), (''num_groups'', Opaque)], st2)))"

definition Linear :: "nat \<Rightarrow> nat \<Rightarrow> bool \<Rightarrow> 'a alloc \<Rightarrow> pyobj \<times> 'a alloc" where
  "Linear in_features out_features bias st =
     (case Tensor_empty [out_features, in_features] st of (weight, st1) \<Rightarrow>
      (case (if bias then Tensor_empty [out_features] st1 else (PyNone, st1)) of (b, st2) \<Rightarrow>
        (PyObj [(''weight'', weight), (''bias'', b)], st2)))"

definition CLIPMLP :: "'a alloc \<Rightarrow> pyobj \<times> 'a alloc" where
  "CLIPMLP st =
     (case Linear 768 3072 True st of (fc1, st1) \<Rightarrow>
      (case Linear 3072 768 True st1 of (fc2, st2) \<Rightarrow>
        (PyObj [(''fc1'', fc1), (''fc2'', fc2)], st2)))"

definition CLIPAttention :: "'a alloc \<Rightarrow> pyobj \<times> 'a alloc" where
  "CLIPAttention st =
     (case Linear 768 768 True st of (k_proj, st1) \<Rightarrow>
      (case Linear 768 768 True st1 of (v_proj, st2) \<Rightarrow>
      (case Linear 768 768 True st2 of (q_proj, st3) \<Rightarrow>
      (case Linear 768 768 True st3 of (out_proj, st4) \<Rightarrow>
        (PyObj [(''embed_dim'', Opaque), (''num_heads'', Opaque), (''head_dim'', Opaque),
                (''scale'', Opaque), (''k_proj'', k_proj), (''v_proj'', v_proj),
                (''q_proj'', q_proj), (''out_proj'', out_proj)], st4)))))"

definition CLIPEncoderLayer :: "'a alloc \<Rightarrow> pyobj \<times> 'a alloc" where
  "CLIPEncoderLayer st =
     (case CLIPAttention st of (self_attn, st1) \<Rightarrow>
      (case Normalize 768 1 st1 of (layer_norm1, st2) \<Rightarrow>
      (case CLIPMLP st2 of (mlp, st3) \<Rightarrow>
      (case Normalize 768 1 st3 of (layer_norm2, st4) \<Rightarrow>
        (PyObj [(''self_attn'', self_attn), (''layer_norm1'', layer_norm1), (''mlp'', mlp),
                (''layer_norm2'', layer_norm2)], st4)))))"

text \<open>\<^verbatim>\<open>[f() for i in range(n)]\<close>\<close>

fun list_of_new :: "nat \<Rightarrow> ('a alloc \<Rightarrow> pyobj \<times> 'a alloc) \<Rightarrow> 'a alloc \<Rightarrow> pyobj list \<times> 'a alloc" where
  "list_of_new 0 f st = ([], st)"
| "list_of_new (Suc n) f st =
     (case f st of (x, st1) \<Rightarrow>
      (case list_of_new n f st1 of (xs, st2) \<Rightarrow> (x # xs, st2)))"

definition CLIPEncoder :: "'a alloc \<Rightarrow> pyobj \<times> 'a alloc" where
  "CLIPEncoder st =
     (case list_of_new 12 CLIPEncoderLayer st of (layers, st1) \<Rightarrow>
        (PyObj [(''layers'', PyList layers)], st1))"

definition CLIPTextEmbeddings :: "'a alloc \<Rightarrow> pyobj \<times> 'a alloc" where
  "CLIPTextEmbeddings st =
     (case Tensor_empty [1, 77] st of (position_ids, st1) \<Rightarrow>
      (case Tensor_empty [49408, 768] st1 of (tw, st2) \<Rightarrow>
      (case Tensor_empty [77, 768] st2 of (pw, st3) \<Rightarrow>
        (PyObj [(''position_ids'', position_ids),
                (''token_embedding'', PyDict [(''weight'', tw)]),
                (''position_embedding'', PyDict [(''weight'', pw)])], st3))))"

definition CLIPTextTransformer :: "'a alloc \<Rightarrow> pyobj \<times> 'a alloc" where
  "CLIPTextTransformer st =
     (case CLIPTextEmbeddings st of (embeddings, st1) \<Rightarrow>
      (case CLIPEncoder st1 of (encoder, st2) \<Rightarrow>
      (case Normalize 768 1 st2 of (final_layer_norm, st3) \<Rightarrow>
        (PyObj [(''embeddings'', embeddings), (''encoder'', encoder),
                (''final_layer_norm'', final_layer_norm)], st3))))"

text \<open>
  \<^verbatim>\<open>StableDiffusion.__init__\<close>: the assignments of \<^verbatim>\<open>self.model\<close> and
  \<^verbatim>\<open>self.first_stage_model\<close> are commented out in the source; the two namedtuples are
  objects with one attribute each.
\<close>

definition StableDiffusion :: "'a alloc \<Rightarrow> pyobj \<times> 'a alloc" where
  "StableDiffusion st =
     (case CLIPTextTransformer st of (text_model, st1) \<Rightarrow>
        (PyObj [(''cond_stage_model'',
                 PyObj [(''transformer'', PyObj [(''text_model'', text_model)])])], st1))"

text \<open>Attribute access \<^verbatim>\<open>obj.name\<close> on an object of the model.\<close>

fun getattr :: "pyobj \<Rightarrow> string \<Rightarrow> exn + pyobj" where
  "getattr (PyObj fs) name = (case map_of fs name of None \<Rightarrow> Inl AttributeError | Some c \<Rightarrow> Inr c)"
| "getattr obj name = Inl AttributeError"

text \<open>
  \<^verbatim>\<open>
  def __call__(self, x):
    context = Tensor.uniform(1, 77, 768)
    return self.model.diffusion_model(x, context)
  \<close>
  \<^verbatim>\<open>Tensor.uniform\<close> draws from the random generator of the library: \<open>uniform\<close> takes
  the generator's state and returns the tensor drawn and the new state. What the
  diffusion model does when called is the parameter \<open>unet\<close>: the constructor above
  never assigns \<^verbatim>\<open>self.model\<close>, and what is proved of this call holds for every \<open>unet\<close>.
\<close>

definition StableDiffusion_call ::
  "(nat list \<Rightarrow> 'r \<Rightarrow> 't \<times> 'r) \<Rightarrow> (pyobj \<Rightarrow> 't \<Rightarrow> 't \<Rightarrow> 'r \<Rightarrow> (exn + 't) \<times> 'r)
     \<Rightarrow> pyobj \<Rightarrow> 't \<Rightarrow> 'r \<Rightarrow> (exn + 't) \<times> 'r" where
  "StableDiffusion_call uniform unet self x rng =
     (case uniform [1, 77, 768] rng of (context, rng1) \<Rightarrow>
       (case getattr self ''model'' of
          Inl e \<Rightarrow> (Inl e, rng1)
        | Inr m \<Rightarrow>
            (case getattr m ''diffusion_model'' of
               Inl e \<Rightarrow> (Inl e, rng1)
             | Inr d \<Rightarrow> unet d x context rng1)))"

text \<open>
  The program up to the end of the loop: the model is built on the heap \<open>h0\<close>, then
  the items \<open>dat\<close> of the checkpoint are loaded.
\<close>

definition main_load ::
  "(pyobj \<Rightarrow> string \<Rightarrow> exn + pyobj) \<Rightarrow> (np_dtype \<Rightarrow> np_dtype \<Rightarrow> 'a \<Rightarrow> 'a) \<Rightarrow> (addr \<Rightarrow> 'a ndarray)
     \<Rightarrow> (string \<times> 'a ndarray) list \<Rightarrow> exn option \<times> 'a pystate" where
  "main_load gc cast h0 dat =
     (case StableDiffusion (0, h0) of (model, (n, h)) \<Rightarrow>
        load_weights gc cast model dat \<lparr>heap = h, stdout = []\<rparr>)"

section \<open>A small model for the examples\<close>

text \<open>
  The examples run the loop on one \<^verbatim>\<open>CLIPMLP()\<close>: two \<^verbatim>\<open>Linear\<close> layers, four tensors
  at the addresses 0 to 3. Buffers are named by strings, and the conversion of the
  examples leaves a buffer's name as it is.
\<close>

definition ex_heap0 :: "addr \<Rightarrow> string ndarray" where
  "ex_heap0 = (\<lambda>a. \<lparr>shape = [], dtype = Float32, data = ''junk''\<rparr>)"

definition ex_model :: pyobj where
  "ex_model = fst (CLIPMLP (0, ex_heap0))"

definition ex_state :: "string pystate" where
  "ex_state = \<lparr>heap = snd (snd (CLIPMLP (0, ex_heap0))), stdout = []\<rparr>"

definition ex_cast :: "np_dtype \<Rightarrow> np_dtype \<Rightarrow> string \<Rightarrow> string" where
  "ex_cast t t' d = d"

definition ex_array :: "nat list \<Rightarrow> string \<Rightarrow> string ndarray" where
  "ex_array shp d = \<lparr>shape = shp, dtype = Float16, data = d\<rparr>"

section \<open>Facts about one iteration and about the loop\<close>

lemma load_entry_skip:
  assumes "gc model k = Inl e" "e = AttributeError \<or> e = KeyError \<or> e = IndexError"
  shows "load_entry gc cast model (k, v) s = (None, s\<lparr>stdout := stdout s @ [(shape v, PyNone, k)]\<rparr>)"
  using assms by (auto simp: load_entry_def try_get_child_def)

lemma load_entry_tensor:
  assumes "gc model k = Inr (Tensor a)"
  shows "load_entry gc cast model (k, v) s =
    (if shape (heap s a) = shape v
     then (None, s\<lparr>stdout := stdout s @ [(shape v, Tensor a, k)],
                    heap := (heap s)(a := astype cast Float32 v)\<rparr>)
     else (Some AssertionError, s\<lparr>stdout := stdout s @ [(shape v, Tensor a, k)]\<rparr>))"
  using assms by (simp add: load_entry_def try_get_child_def Tensor_assign_def)

lemma load_weights_append:
  "load_weights gc cast model (xs @ ys) s =
     (case load_weights gc cast model xs s of
        (None, s') \<Rightarrow> load_weights gc cast model ys s'
      | (Some e, s') \<Rightarrow> (Some e, s'))"
  by (induction xs arbitrary: s) (auto split: prod.splits option.splits)

text \<open>What one iteration does to one tensor object.\<close>

lemma load_entry_heap:
  "heap (snd (load_entry gc cast model (k, v) s)) b =
     (if gc model k = Inr (Tensor b) \<and> shape (heap s b) = shape v
      then astype cast Float32 v else heap s b)"
  by (auto simp: load_entry_def try_get_child_def Tensor_assign_def Let_def
           split: sum.splits pyobj.splits)

lemma shape_astype [simp]: "shape (astype cast t v) = shape v"
  by (simp add: astype_def)

lemma dtype_astype [simp]: "dtype (astype cast t v) = t"
  by (simp add: astype_def)

lemma load_entry_shape:
  "shape (heap (snd (load_entry gc cast model kv s)) b) = shape (heap s b)"
  by (cases kv) (simp add: load_entry_heap)

lemma load_weights_shape:
  "shape (heap (snd (load_weights gc cast model kvs s)) b) = shape (heap s b)"
proof (induction kvs arbitrary: s)
  case Nil
  show ?case by simp
next
  case (Cons kv kvs)
  obtain r s' where st: "load_entry gc cast model kv s = (r, s')"
    by (cases "load_entry gc cast model kv s")
  have sh: "shape (heap s' b) = shape (heap s b)"
    using load_entry_shape [of gc cast model kv s b] st by simp
  show ?case
  proof (cases r)
    case None
    with st Cons.IH [of s'] sh show ?thesis by simp
  next
    case (Some e)
    with st sh show ?thesis by simp
  qed
qed



lemma ex_model_eq:
  "ex_model = PyObj [(''fc1'', PyObj [(''weight'', Tensor 0), (''bias'', Tensor 1)]),
                     (''fc2'', PyObj [(''weight'', Tensor 2), (''bias'', Tensor 3)])]"
  by (simp add: ex_model_def CLIPMLP_def Linear_def Tensor_empty_def)

lemma ex_state_shapes:
  "shape (heap ex_state 0) = [3072, 768]" "shape (heap ex_state (Suc 0)) = [3072]"
  "shape (heap ex_state 2) = [768, 3072]" "shape (heap ex_state 3) = [768]"
  by (simp_all add: ex_state_def CLIPMLP_def Linear_def Tensor_empty_def eval_nat_numeral)

lemma ex_state_data:
  "data (heap ex_state a) = ''junk''" "dtype (heap ex_state a) = Float32"
  by (simp_all add: ex_state_def CLIPMLP_def Linear_def Tensor_empty_def ex_heap0_def)

lemma ex_stdout: "stdout ex_state = []"
  by (simp add: ex_state_def)

lemma ex_get_child:
  "get_child wk ex_model ''fc1.weight'' = Inr (Tensor 0)"
  "get_child wk ex_model ''fc1.bias'' = Inr (Tensor 1)"
  "get_child wk ex_model ''fc2.weight'' = Inr (Tensor 2)"
  "get_child wk ex_model ''fc2.bias'' = Inr (Tensor 3)"
  "get_child wk ex_model ''decoder.block_9.nonexistent'' = Inl AttributeError"
  "get_child wk ex_model ''fc1..weight'' = Inl AttributeError"
  by (simp_all add: ex_model_eq get_child_def is_index_def is_digit_def)


lemma load_weights_untouched:
  "\<forall>kv \<in> set kvs. gc model (fst kv) \<noteq> Inr (Tensor a) \<Longrightarrow>
   heap (snd (load_weights gc cast model kvs s)) a = heap s a"
proof (induction kvs arbitrary: s)
  case Nil
  show ?case by simp
next
  case (Cons kv kvs)
  obtain k v where kv: "kv = (k, v)" by (cases kv)
  obtain r s' where st: "load_entry gc cast model kv s = (r, s')"
    by (cases "load_entry gc cast model kv s")
  from Cons.prems kv have "gc model k \<noteq> Inr (Tensor a)" by simp
  then have same: "heap s' a = heap s a"
    using load_entry_heap [of gc cast model k v s a] st kv by simp
  from Cons.prems have rest: "\<forall>kv \<in> set kvs. gc model (fst kv) \<noteq> Inr (Tensor a)" by simp
  show ?case
  proof (cases r)
    case None
    with st Cons.IH [OF rest, of s'] same show ?thesis by simp
  next
    case (Some e)
    with st same show ?thesis by simp
  qed
qed

lemma load_weights_changed:
  "heap (snd (load_weights gc cast model kvs s)) b \<noteq> heap s b \<Longrightarrow>
   \<exists>kv \<in> set kvs. gc model (fst kv) = Inr (Tensor b) \<and> shape (snd kv) = shape (heap s b)"
proof (induction kvs arbitrary: s)
  case Nil
  then show ?case by simp
next
  case (Cons kv kvs)
  obtain k v where kv: "kv = (k, v)" by (cases kv)
  obtain r s' where st: "load_entry gc cast model kv s = (r, s')"
    by (cases "load_entry gc cast model kv s")
  have h': "heap s' b = (if gc model k = Inr (Tensor b) \<and> shape (heap s b) = shape v
                         then astype cast Float32 v else heap s b)"
    using load_entry_heap [of gc cast model k v s b] st kv by simp
  show ?case
  proof (cases "gc model k = Inr (Tensor b) \<and> shape (heap s b) = shape v")
    case True
    with kv show ?thesis by auto
  next
    case False
    with h' have same: "heap s' b = heap s b" by simp
    show ?thesis
    proof (cases r)
      case None
      with st Cons.prems same
      have "heap (snd (load_weights gc cast model kvs s')) b \<noteq> heap s' b" by simp
      from Cons.IH [OF this] same show ?thesis by auto
    next
      case (Some e)
      with st Cons.prems same show ?thesis by simp
    qed
  qed
qed




text \<open>
  Two runs from heaps of the same shapes: every tensor object ends the same in both, or
  is left as it was in both.
\<close>

lemma load_entry_same_shapes:
  assumes "\<forall>a. shape (heap s a) = shape (heap t a)"
  shows "fst (load_entry gc cast model kv s) = fst (load_entry gc cast model kv t)
         \<and> (\<forall>b. heap (snd (load_entry gc cast model kv s)) b = heap (snd (load_entry gc cast model kv t)) b
               \<or> (heap (snd (load_entry gc cast model kv s)) b = heap s b
                  \<and> heap (snd (load_entry gc cast model kv t)) b = heap t b))"
  using assms
  by (cases kv)
     (auto simp: load_entry_def try_get_child_def Tensor_assign_def Let_def
           split: sum.splits pyobj.splits)

lemma load_weights_same_shapes:
  "\<forall>a. shape (heap s a) = shape (heap t a) \<Longrightarrow>
   fst (load_weights gc cast model kvs s) = fst (load_weights gc cast model kvs t)
   \<and> (\<forall>b. heap (snd (load_weights gc cast model kvs s)) b = heap (snd (load_weights gc cast model kvs t)) b
         \<or> (heap (snd (load_weights gc cast model kvs s)) b = heap s b
            \<and> heap (snd (load_weights gc cast model kvs t)) b = heap t b))"
proof (induction kvs arbitrary: s t)
  case Nil
  then show ?case by simp
next
  case (Cons kv kvs)
  obtain r s' where st: "load_entry gc cast model kv s = (r, s')"
    by (cases "load_entry gc cast model kv s")
  obtain r' t' where tt: "load_entry gc cast model kv t = (r', t')"
    by (cases "load_entry gc cast model kv t")
  from load_entry_same_shapes [OF Cons.prems, of gc cast model kv] st tt
  have eq: "r = r'"
    and step: "\<forall>b. heap s' b = heap t' b \<or> (heap s' b = heap s b \<and> heap t' b = heap t b)"
    by simp_all
  have shapes': "\<forall>a. shape (heap s' a) = shape (heap t' a)"
  proof
    fix a
    have "shape (heap s' a) = shape (heap s a)"
      using load_entry_shape [of gc cast model kv s a] st by simp
    moreover have "shape (heap t' a) = shape (heap t a)"
      using load_entry_shape [of gc cast model kv t a] tt by simp
    ultimately show "shape (heap s' a) = shape (heap t' a)"
      using Cons.prems by simp
  qed
  show ?case
  proof (cases r)
    case None
    from Cons.IH [OF shapes']
    have ih1: "fst (load_weights gc cast model kvs s') = fst (load_weights gc cast model kvs t')"
      and ih2: "\<forall>b. heap (snd (load_weights gc cast model kvs s')) b = heap (snd (load_weights gc cast model kvs t')) b
         \<or> (heap (snd (load_weights gc cast model kvs s')) b = heap s' b
            \<and> heap (snd (load_weights gc cast model kvs t')) b = heap t' b)"
      by simp_all
    have "\<forall>b. heap (snd (load_weights gc cast model kvs s')) b = heap (snd (load_weights gc cast model kvs t')) b
         \<or> (heap (snd (load_weights gc cast model kvs s')) b = heap s b
            \<and> heap (snd (load_weights gc cast model kvs t')) b = heap t b)"
    proof
      fix b
      from ih2 have "heap (snd (load_weights gc cast model kvs s')) b = heap (snd (load_weights gc cast model kvs t')) b
         \<or> (heap (snd (load_weights gc cast model kvs s')) b = heap s' b
            \<and> heap (snd (load_weights gc cast model kvs t')) b = heap t' b)" by simp
      moreover from step have "heap s' b = heap t' b \<or> (heap s' b = heap s b \<and> heap t' b = heap t b)" by simp
      ultimately show "heap (snd (load_weights gc cast model kvs s')) b = heap (snd (load_weights gc cast model kvs t')) b
         \<or> (heap (snd (load_weights gc cast model kvs s')) b = heap s b
            \<and> heap (snd (load_weights gc cast model kvs t')) b = heap t b)"
        by metis
    qed
    with None st tt eq ih1 show ?thesis by simp
  next
    case (Some e)
    with eq have "r' = Some e" by simp
    with Some st tt eq step show ?thesis by simp
  qed
qed

text \<open>What the loop prints.\<close>

lemma load_entry_stdout:
  "stdout (snd (load_entry gc cast model kv s))
     = stdout s @ (case try_get_child gc model (fst kv) of Inl e \<Rightarrow> [] | Inr w \<Rightarrow> [print_line gc model kv])"
  by (cases kv)
     (auto simp: load_entry_def print_line_def Let_def split: sum.splits pyobj.splits)

lemma load_entry_None_stdout:
  "fst (load_entry gc cast model kv s) = None \<Longrightarrow>
   stdout (snd (load_entry gc cast model kv s)) = stdout s @ [print_line gc model kv]"
  by (cases kv)
     (auto simp: load_entry_def print_line_def Let_def split: sum.splits pyobj.splits if_splits)

lemma load_entry_Assertion:
  "fst (load_entry gc cast model kv s) = Some AssertionError \<Longrightarrow>
   gc model (fst kv) \<noteq> Inl AssertionError \<Longrightarrow>
   stdout (snd (load_entry gc cast model kv s)) = stdout s @ [print_line gc model kv]
   \<and> (\<exists>a. gc model (fst kv) = Inr (Tensor a) \<and> shape (heap s a) \<noteq> shape (snd kv))"
  by (cases kv)
     (auto simp: load_entry_def print_line_def try_get_child_def Let_def
           split: sum.splits pyobj.splits if_splits)

lemma load_weights_stdout_complete:
  "fst (load_weights gc cast model kvs s) = None \<Longrightarrow>
   stdout (snd (load_weights gc cast model kvs s)) = stdout s @ map (print_line gc model) kvs"
proof (induction kvs arbitrary: s)
  case Nil
  show ?case by simp
next
  case (Cons kv kvs)
  obtain r s' where st: "load_entry gc cast model kv s = (r, s')"
    by (cases "load_entry gc cast model kv s")
  show ?case
  proof (cases r)
    case None
    with st have "stdout s' = stdout s @ [print_line gc model kv]"
      using load_entry_None_stdout [of gc cast model kv s] by simp
    moreover from None st Cons.prems have "fst (load_weights gc cast model kvs s') = None" by simp
    ultimately show ?thesis using None st Cons.IH [of s'] by simp
  next
    case (Some e)
    with st Cons.prems show ?thesis by simp
  qed
qed

lemma load_weights_stdout_prefix:
  "\<exists>n\<le>length kvs. stdout (snd (load_weights gc cast model kvs s))
                     = stdout s @ map (print_line gc model) (take n kvs)"
proof (induction kvs arbitrary: s)
  case Nil
  show ?case by simp
next
  case (Cons kv kvs)
  obtain r s' where st: "load_entry gc cast model kv s = (r, s')"
    by (cases "load_entry gc cast model kv s")
  show ?case
  proof (cases r)
    case None
    with st have one: "stdout s' = stdout s @ [print_line gc model kv]"
      using load_entry_None_stdout [of gc cast model kv s] by simp
    from Cons.IH [of s'] obtain n where n: "n \<le> length kvs"
      "stdout (snd (load_weights gc cast model kvs s'))
         = stdout s' @ map (print_line gc model) (take n kvs)" by blast
    have "Suc n \<le> length (kv # kvs)" using n(1) by simp
    moreover have "stdout (snd (load_weights gc cast model (kv # kvs) s))
         = stdout s @ map (print_line gc model) (take (Suc n) (kv # kvs))"
      using None st one n(2) by simp
    ultimately show ?thesis by blast
  next
    case (Some e)
    have "stdout s' = stdout s @ (case try_get_child gc model (fst kv) of Inl e \<Rightarrow> []
                                   | Inr w \<Rightarrow> [print_line gc model kv])"
      using load_entry_stdout [of gc cast model kv s] st by simp
    then have "stdout s' = stdout s @ map (print_line gc model) (take 0 (kv # kvs))
             \<or> stdout s' = stdout s @ map (print_line gc model) (take (Suc 0) (kv # kvs))"
      by (auto split: sum.splits)
    moreover have "stdout (snd (load_weights gc cast model (kv # kvs) s)) = stdout s'"
      using Some st by simp
    ultimately have "stdout (snd (load_weights gc cast model (kv # kvs) s))
                       = stdout s @ map (print_line gc model) (take 0 (kv # kvs))
             \<or> stdout (snd (load_weights gc cast model (kv # kvs) s))
                       = stdout s @ map (print_line gc model) (take (Suc 0) (kv # kvs))"
      by simp
    moreover have "0 \<le> length (kv # kvs)" "Suc 0 \<le> length (kv # kvs)" by simp_all
    ultimately show ?thesis by blast
  qed
qed

lemma load_weights_stdout_assertion:
  "fst (load_weights gc cast model kvs s) = Some AssertionError \<Longrightarrow>
   \<forall>k. gc model k \<noteq> Inl AssertionError \<Longrightarrow>
   \<exists>n<length kvs. stdout (snd (load_weights gc cast model kvs s))
                     = stdout s @ map (print_line gc model) (take (Suc n) kvs)
      \<and> (\<exists>a. gc model (fst (kvs ! n)) = Inr (Tensor a)
              \<and> shape (heap s a) \<noteq> shape (snd (kvs ! n)))"
proof (induction kvs arbitrary: s)
  case Nil
  then show ?case by simp
next
  case (Cons kv kvs)
  obtain r s' where st: "load_entry gc cast model kv s = (r, s')"
    by (cases "load_entry gc cast model kv s")
  show ?case
  proof (cases r)
    case None
    with st have one: "stdout s' = stdout s @ [print_line gc model kv]"
      using load_entry_None_stdout [of gc cast model kv s] by simp
    from None st Cons.prems have "fst (load_weights gc cast model kvs s') = Some AssertionError"
      by simp
    from Cons.IH [OF this Cons.prems(2)] obtain n a where n: "n < length kvs"
      "stdout (snd (load_weights gc cast model kvs s'))
         = stdout s' @ map (print_line gc model) (take (Suc n) kvs)"
      "gc model (fst (kvs ! n)) = Inr (Tensor a)"
      "shape (heap s' a) \<noteq> shape (snd (kvs ! n))" by blast
    have "shape (heap s' a) = shape (heap s a)"
      using load_entry_shape [of gc cast model kv s a] st by simp
    with n(4) have sh: "shape (heap s a) \<noteq> shape (snd ((kv # kvs) ! Suc n))" by simp
    have "Suc n < length (kv # kvs)" using n(1) by simp
    moreover have "stdout (snd (load_weights gc cast model (kv # kvs) s))
         = stdout s @ map (print_line gc model) (take (Suc (Suc n)) (kv # kvs))"
      using None st one n(2) by simp
    moreover have "gc model (fst ((kv # kvs) ! Suc n)) = Inr (Tensor a)" using n(3) by simp
    ultimately show ?thesis using sh by blast
  next
    case (Some e)
    with st Cons.prems have e: "e = AssertionError" by simp
    with Some st have "fst (load_entry gc cast model kv s) = Some AssertionError" by simp
    moreover from Cons.prems(2) have "gc model (fst kv) \<noteq> Inl AssertionError" by simp
    ultimately have "stdout (snd (load_entry gc cast model kv s)) = stdout s @ [print_line gc model kv]
      \<and> (\<exists>a. gc model (fst kv) = Inr (Tensor a) \<and> shape (heap s a) \<noteq> shape (snd kv))"
      by (rule load_entry_Assertion)
    with st
    have "stdout s' = stdout s @ [print_line gc model kv]"
      and "\<exists>a. gc model (fst kv) = Inr (Tensor a) \<and> shape (heap s a) \<noteq> shape (snd kv)"
      by simp_all
    then have "stdout (snd (load_weights gc cast model (kv # kvs) s))
         = stdout s @ map (print_line gc model) (take (Suc 0) (kv # kvs))"
      and "\<exists>a. gc model (fst ((kv # kvs) ! 0)) = Inr (Tensor a)
              \<and> shape (heap s a) \<noteq> shape (snd ((kv # kvs) ! 0))"
      using Some st by simp_all
    moreover have "0 < length (kv # kvs)" by simp
    ultimately show ?thesis by blast
  qed
qed

text \<open>An unresolved key after another: the loop runs through and writes to no tensor.\<close>

lemma load_weights_all_skipped:
  "\<forall>kv \<in> set kvs. gc model (fst kv) = Inl AttributeError \<Longrightarrow>
   fst (load_weights gc cast model kvs s) = None
   \<and> heap (snd (load_weights gc cast model kvs s)) = heap s"
proof (induction kvs arbitrary: s)
  case Nil
  show ?case by simp
next
  case (Cons kv kvs)
  obtain k v where kv: "kv = (k, v)" by (cases kv)
  from Cons.prems kv have "gc model k = Inl AttributeError" by simp
  then have step: "load_entry gc cast model kv s
                   = (None, s\<lparr>stdout := stdout s @ [(shape v, PyNone, k)]\<rparr>)"
    using load_entry_skip [of gc model k AttributeError cast v s] kv by simp
  from Cons.prems have "\<forall>kv \<in> set kvs. gc model (fst kv) = Inl AttributeError" by simp
  from Cons.IH [OF this, of "s\<lparr>stdout := stdout s @ [(shape v, PyNone, k)]\<rparr>"] step
  show ?case by simp
qed


section \<open>Facts about path resolution\<close>

lemma child_error:
  "child wk node seg = Inl e \<Longrightarrow> e = AttributeError \<or> e = KeyError \<or> e = IndexError \<or> e = wk"
  by (cases node) (auto split: if_splits option.splits)

lemma walk_error:
  "walk wk node segs = Inl e \<Longrightarrow> e = AttributeError \<or> e = KeyError \<or> e = IndexError \<or> e = wk"
proof (induction segs arbitrary: node)
  case Nil
  then show ?case by (cases node) auto
next
  case (Cons seg segs)
  show ?case
  proof (cases "child wk node seg")
    case (Inl e')
    with Cons.prems have "e' = e" by simp
    with Inl child_error [of wk node seg e] show ?thesis by simp
  next
    case (Inr c)
    with Cons.prems have "walk wk c segs = Inl e" by simp
    then show ?thesis by (rule Cons.IH)
  qed
qed

lemma get_child_error:
  "get_child wk model k = Inl e \<Longrightarrow> e = AttributeError \<or> e = KeyError \<or> e = IndexError \<or> e = wk"
  unfolding get_child_def by (rule walk_error)

lemma child_names_ok:
  "names_ok node \<Longrightarrow> child wk node seg = Inr c \<Longrightarrow> names_ok c"
proof (cases node)
  case (PyObj fs)
  assume ok: "names_ok node" and ch: "child wk node seg = Inr c"
  from ch PyObj have "map_of fs seg = Some c" by (auto split: if_splits option.splits)
  then have "(seg, c) \<in> set fs" by (rule map_of_SomeD)
  with ok PyObj show ?thesis by auto
next
  case (PyDict fs)
  assume ok: "names_ok node" and ch: "child wk node seg = Inr c"
  from ch PyDict have "map_of fs seg = Some c" by (auto split: if_splits option.splits)
  then have "(seg, c) \<in> set fs" by (rule map_of_SomeD)
  with ok PyDict show ?thesis by auto
next
  case (PyList xs)
  assume ok: "names_ok node" and ch: "child wk node seg = Inr c"
  from ch PyList have "index_of seg < length xs" "c = xs ! index_of seg"
    by (auto split: if_splits)
  then have "c \<in> set xs" by simp
  with ok PyList show ?thesis by auto
qed auto

lemma child_invalid_segment:
  assumes "names_ok node" and "\<not> valid_segment seg"
  shows "\<exists>e. child wk node seg = Inl e"
proof (cases node)
  case (PyObj fs)
  have "map_of fs seg = None"
  proof (cases "map_of fs seg")
    case (Some c)
    then have "(seg, c) \<in> set fs" by (rule map_of_SomeD)
    with assms(1) PyObj have "is_identifier seg" by auto
    with assms(2) show ?thesis by (simp add: valid_segment_def)
  qed simp
  with PyObj show ?thesis by simp
next
  case (PyDict fs)
  have "map_of fs seg = None"
  proof (cases "map_of fs seg")
    case (Some c)
    then have "(seg, c) \<in> set fs" by (rule map_of_SomeD)
    with assms(1) PyDict have "is_identifier seg" by auto
    with assms(2) show ?thesis by (simp add: valid_segment_def)
  qed simp
  with PyDict show ?thesis by simp
next
  case (PyList xs)
  from assms(2) have "\<not> is_index seg" by (simp add: valid_segment_def)
  with PyList show ?thesis by simp
qed simp_all

lemma walk_invalid_path:
  "names_ok node \<Longrightarrow> \<not> list_all valid_segment segs \<Longrightarrow> \<exists>e. walk wk node segs = Inl e"
proof (induction segs arbitrary: node)
  case Nil
  then show ?case by simp
next
  case (Cons seg segs)
  show ?case
  proof (cases "child wk node seg")
    case (Inl e)
    then show ?thesis by simp
  next
    case (Inr c)
    have "valid_segment seg"
    proof (rule ccontr)
      assume "\<not> valid_segment seg"
      from child_invalid_segment [OF Cons.prems(1) this, of wk] Inr show False by simp
    qed
    with Cons.prems(2) have rest: "\<not> list_all valid_segment segs" by simp
    from child_names_ok [OF Cons.prems(1) Inr] have "names_ok c" .
    from Cons.IH [OF this rest] Inr show ?thesis by simp
  qed
qed

lemma ex_model_names_ok: "names_ok ex_model"
  by (simp add: ex_model_eq is_identifier_def is_ident_start_def is_digit_def)

lemma ex_invalid_path: "\<not> valid_path ''fc1..weight''"
  by (simp add: valid_path_def valid_segment_def is_identifier_def is_index_def)

lemma split_dot_model: "split_dot (''model.'' @ rest) = ''model'' # split_dot rest"
  by simp

lemma split_dot_first_stage_model:
  "split_dot (''first_stage_model.'' @ rest) = ''first_stage_model'' # split_dot rest"
  by simp

lemma StableDiffusion_root:
  "\<exists>tm. fst (StableDiffusion st) = PyObj [(''cond_stage_model'', tm)]"
  by (simp add: StableDiffusion_def split: prod.splits)

lemma get_child_model_prefix:
  "get_child wk (fst (StableDiffusion st))
     ((if b then ''model.'' else ''first_stage_model.'') @ rest) = Inl AttributeError"
proof -
  obtain tm where root: "fst (StableDiffusion st) = PyObj [(''cond_stage_model'', tm)]"
    using StableDiffusion_root by blast
  show ?thesis
  proof (cases b)
    case True
    then show ?thesis
      unfolding get_child_def using split_dot_model [of rest]
      by (simp add: root is_index_def is_digit_def)
  next
    case False
    then show ?thesis
      unfolding get_child_def using split_dot_first_stage_model [of rest]
      by (simp add: root is_index_def is_digit_def)
  qed
qed

lemma main_load_absent_branches:
  "fst (main_load (get_child wk) cast h0
          (map (\<lambda>(b, rest, v). ((if b then ''model.'' else ''first_stage_model.'') @ rest, v)) xs))
     = None
   \<and> heap (snd (main_load (get_child wk) cast h0
          (map (\<lambda>(b, rest, v). ((if b then ''model.'' else ''first_stage_model.'') @ rest, v)) xs)))
     = snd (snd (StableDiffusion (0, h0)))"
proof -
  let ?dat = "map (\<lambda>(b, rest, v). ((if b then ''model.'' else ''first_stage_model.'') @ rest, v)) xs"
  obtain model n h where sd: "StableDiffusion (0, h0) = (model, (n, h))"
    by (cases "StableDiffusion (0, h0)") auto
  then have m: "model = fst (StableDiffusion (0, h0))" by simp
  have "\<forall>kv \<in> set ?dat. get_child wk model (fst kv) = Inl AttributeError"
    using get_child_model_prefix [of wk "(0, h0)"] m by (auto simp del: split_dot.simps)
  then have "fst (load_weights (get_child wk) cast model ?dat \<lparr>heap = h, stdout = []\<rparr>) = None
   \<and> heap (snd (load_weights (get_child wk) cast model ?dat \<lparr>heap = h, stdout = []\<rparr>))
       = heap \<lparr>heap = h, stdout = []\<rparr>"
    by (rule load_weights_all_skipped [where gc = "get_child wk" and model = model])
  with sd show ?thesis by (simp add: main_load_def)
qed


section \<open>The claims\<close>

subsection \<open>C1: a bound leaf holds the checkpoint tensor, cast to float32\<close>

text \<open>
  C1, as amended. For a checkpoint entry \<open>(k, v)\<close> that the loop reaches (the entries
  \<open>pre\<close> before it raise nothing) and whose key resolves to a leaf of the shape of
  \<open>v\<close>: right after its iteration the leaf holds the shape of \<open>v\<close>, the element
  type float32 and the buffer of \<open>v\<close> converted by the cast, nothing else being done
  to it; and it still holds them at the end of the pass when no later entry resolves to
  the same leaf.
\<close>

theorem bound_leaf_holds_cast:
  assumes "load_weights gc cast model pre s = (None, s1)"
    and "gc model k = Inr (Tensor a)"
    and "shape (heap s a) = shape v"
    and "\<forall>kv \<in> set post. gc model (fst kv) \<noteq> Inr (Tensor a)"
  shows "heap (snd (load_entry gc cast model (k, v) s1)) a
           = \<lparr>shape = shape v, dtype = Float32, data = cast (dtype v) Float32 (data v)\<rparr>
       \<and> heap (snd (load_weights gc cast model (pre @ (k, v) # post) s)) a
           = \<lparr>shape = shape v, dtype = Float32, data = cast (dtype v) Float32 (data v)\<rparr>"
proof -
  have "shape (heap s1 a) = shape (heap s a)"
    using load_weights_shape [of gc cast model pre s a] assms(1) by simp
  with assms(3) have sh: "shape (heap s1 a) = shape v" by simp
  obtain s2 where s2: "s2 = s1\<lparr>stdout := stdout s1 @ [(shape v, Tensor a, k)],
                               heap := (heap s1)(a := astype cast Float32 v)\<rparr>" by simp
  have step: "load_entry gc cast model (k, v) s1 = (None, s2)"
    using load_entry_tensor [of gc model k a cast v s1] assms(2) sh s2 by simp
  have h2: "heap s2 a = astype cast Float32 v" using s2 by simp
  have "load_weights gc cast model (pre @ (k, v) # post) s = load_weights gc cast model post s2"
    using assms(1) step by (simp add: load_weights_append)
  moreover have "heap (snd (load_weights gc cast model post s2)) a = heap s2 a"
    using load_weights_untouched [of post gc model a cast s2] assms(4) by simp
  ultimately show ?thesis using step h2 by (simp add: astype_def)
qed

text \<open>
  An instance: \<^verbatim>\<open>fc1.weight\<close> is bound first, \<^verbatim>\<open>fc2.bias\<close> is the entry, an
  unresolved key follows.
\<close>

theorem bound_leaf_holds_cast_witness:
  "fst (load_weights (get_child TypeError) ex_cast ex_model
         [(''fc1.weight'', ex_array [3072, 768] ''W'')] ex_state) = None
   \<and> get_child TypeError ex_model ''fc2.bias'' = Inr (Tensor 3)
   \<and> shape (heap ex_state 3) = shape (ex_array [768] ''D'')
   \<and> get_child TypeError ex_model ''decoder.block_9.nonexistent'' \<noteq> Inr (Tensor 3)
   \<and> heap (snd (load_weights (get_child TypeError) ex_cast ex_model
              ([(''fc1.weight'', ex_array [3072, 768] ''W'')]
                 @ (''fc2.bias'', ex_array [768] ''D'')
                 # [(''decoder.block_9.nonexistent'', ex_array [1] ''X'')])
              ex_state)) 3
       = \<lparr>shape = [768], dtype = Float32, data = ''D''\<rparr>"
proof -
  let ?G = "get_child TypeError"
  let ?pre = "[(''fc1.weight'', ex_array [3072, 768] ''W'')]"
  let ?post = "[(''decoder.block_9.nonexistent'', ex_array [1] ''X'')]"
  have h1: "fst (load_weights ?G ex_cast ex_model ?pre ex_state) = None"
    by (simp add: ex_get_child ex_state_shapes load_entry_tensor ex_array_def)
  then have h1': "load_weights ?G ex_cast ex_model ?pre ex_state
                  = (None, snd (load_weights ?G ex_cast ex_model ?pre ex_state))"
    by (metis prod.collapse)
  have h2: "?G ex_model ''fc2.bias'' = Inr (Tensor 3)" by (simp add: ex_get_child)
  have h3: "shape (heap ex_state 3) = shape (ex_array [768] ''D'')"
    by (simp add: ex_state_shapes ex_array_def)
  have h4: "\<forall>kv \<in> set ?post. ?G ex_model (fst kv) \<noteq> Inr (Tensor 3)"
    by (simp add: ex_get_child)
  from bound_leaf_holds_cast [where gc = ?G and model = ex_model and cast = ex_cast, OF h1' h2 h3 h4] h1 h2 h3 h4
  show ?thesis by (simp add: ex_array_def ex_cast_def)
qed

text \<open>
  C1 as stated fails when an earlier entry stops the pass: \<^verbatim>\<open>fc1.bias\<close> comes with
  the shape (768,) against the leaf's (3072,), the assertion fails, and \<^verbatim>\<open>fc2.bias\<close>,
  which resolves to a leaf of its own shape, is never assigned.
\<close>

theorem later_entry_not_bound_counterexample:
  "get_child TypeError ex_model ''fc2.bias'' = Inr (Tensor 3)
   \<and> shape (heap ex_state 3) = shape (ex_array [768] ''D'')
   \<and> heap (snd (load_weights (get_child TypeError) ex_cast ex_model
              [(''fc1.bias'', ex_array [768] ''B''), (''fc2.bias'', ex_array [768] ''D'')]
              ex_state)) 3
       \<noteq> astype ex_cast Float32 (ex_array [768] ''D'')"
proof -
  let ?s' = "snd (load_weights (get_child TypeError) ex_cast ex_model
              [(''fc1.bias'', ex_array [768] ''B''), (''fc2.bias'', ex_array [768] ''D'')]
              ex_state)"
  have "data (heap ?s' 3) = ''junk''"
    by (simp add: ex_get_child ex_state_shapes load_entry_tensor ex_array_def ex_state_data)
  moreover have "data (astype ex_cast Float32 (ex_array [768] ''D'')) = ''D''"
    by (simp add: astype_def ex_array_def ex_cast_def)
  ultimately have "heap ?s' 3 \<noteq> astype ex_cast Float32 (ex_array [768] ''D'')"
    by auto
  then show ?thesis
    by (simp add: ex_get_child ex_state_shapes ex_array_def)
qed

subsection \<open>C2: a shape mismatch stops the pass\<close>



subsection \<open>C3: an unresolved key is skipped\<close>




subsection \<open>C4: nothing is written after the failed assertion\<close>

text \<open>
  C4. When the entries \<open>pre\<close> raise nothing and the next entry resolves to a leaf
  of another shape, the pass ends there with the failed assertion, whatever entries
  \<open>post\<close> follow: the heap is the one \<open>pre\<close> left, and a tensor that differs from
  its initial contents is the leaf of an entry of \<open>pre\<close> of matching shape.
\<close>

theorem abort_is_fail_fast:
  assumes "load_weights gc cast model pre s = (None, s1)"
    and "gc model k = Inr (Tensor a)"
    and "shape (heap s a) \<noteq> shape v"
  shows "load_weights gc cast model (pre @ (k, v) # post) s
           = (Some AssertionError, s1\<lparr>stdout := stdout s1 @ [(shape v, Tensor a, k)]\<rparr>)
       \<and> heap (snd (load_weights gc cast model (pre @ (k, v) # post) s)) = heap s1
       \<and> (\<forall>b. heap s1 b \<noteq> heap s b \<longrightarrow>
             (\<exists>kv \<in> set pre. gc model (fst kv) = Inr (Tensor b)
                             \<and> shape (snd kv) = shape (heap s b)))"
proof -
  have "shape (heap s1 a) = shape (heap s a)"
    using load_weights_shape [of gc cast model pre s a] assms(1) by simp
  with assms(3) have sh: "shape (heap s1 a) \<noteq> shape v" by simp
  have step: "load_entry gc cast model (k, v) s1
              = (Some AssertionError, s1\<lparr>stdout := stdout s1 @ [(shape v, Tensor a, k)]\<rparr>)"
    using load_entry_tensor [of gc model k a cast v s1] assms(2) sh by simp
  have whole: "load_weights gc cast model (pre @ (k, v) # post) s
           = (Some AssertionError, s1\<lparr>stdout := stdout s1 @ [(shape v, Tensor a, k)]\<rparr>)"
    using assms(1) step by (simp add: load_weights_append)
  have written: "\<forall>b. heap s1 b \<noteq> heap s b \<longrightarrow>
             (\<exists>kv \<in> set pre. gc model (fst kv) = Inr (Tensor b)
                             \<and> shape (snd kv) = shape (heap s b))"
  proof (intro allI impI)
    fix b
    assume "heap s1 b \<noteq> heap s b"
    then have "heap (snd (load_weights gc cast model pre s)) b \<noteq> heap s b"
      using assms(1) by simp
    then show "\<exists>kv \<in> set pre. gc model (fst kv) = Inr (Tensor b)
                             \<and> shape (snd kv) = shape (heap s b)"
      by (rule load_weights_changed)
  qed
  from whole written show ?thesis by simp
qed

text \<open>
  An instance: \<^verbatim>\<open>fc1.weight\<close> is bound, \<^verbatim>\<open>fc1.bias\<close> mismatches, \<^verbatim>\<open>fc2.bias\<close> is
  never reached.
\<close>

theorem abort_is_fail_fast_witness:
  "fst (load_weights (get_child TypeError) ex_cast ex_model
         [(''fc1.weight'', ex_array [3072, 768] ''W'')] ex_state) = None
   \<and> get_child TypeError ex_model ''fc1.bias'' = Inr (Tensor 1)
   \<and> shape (heap ex_state 1) \<noteq> shape (ex_array [768] ''B'')
   \<and> fst (load_weights (get_child TypeError) ex_cast ex_model
         ([(''fc1.weight'', ex_array [3072, 768] ''W'')]
            @ (''fc1.bias'', ex_array [768] ''B'')
            # [(''fc2.bias'', ex_array [768] ''D'')]) ex_state) = Some AssertionError
   \<and> data (heap (snd (load_weights (get_child TypeError) ex_cast ex_model
         ([(''fc1.weight'', ex_array [3072, 768] ''W'')]
            @ (''fc1.bias'', ex_array [768] ''B'')
            # [(''fc2.bias'', ex_array [768] ''D'')]) ex_state)) 0) = ''W''
   \<and> heap (snd (load_weights (get_child TypeError) ex_cast ex_model
         ([(''fc1.weight'', ex_array [3072, 768] ''W'')]
            @ (''fc1.bias'', ex_array [768] ''B'')
            # [(''fc2.bias'', ex_array [768] ''D'')]) ex_state)) 3 = heap ex_state 3
   \<and> heap (snd (load_weights (get_child TypeError) ex_cast ex_model
         [(''fc1.weight'', ex_array [3072, 768] ''W'')] ex_state)) 0 \<noteq> heap ex_state 0
   \<and> get_child TypeError ex_model ''fc1.weight'' = Inr (Tensor 0)"
proof -
  let ?G = "get_child TypeError"
  let ?pre = "[(''fc1.weight'', ex_array [3072, 768] ''W'')]"
  let ?post = "[(''fc2.bias'', ex_array [768] ''D'')]"
  let ?v = "ex_array [768] ''B''"
  have h1: "fst (load_weights ?G ex_cast ex_model ?pre ex_state) = None"
    by (simp add: ex_get_child ex_state_shapes load_entry_tensor ex_array_def)
  then have h1': "load_weights ?G ex_cast ex_model ?pre ex_state
                  = (None, snd (load_weights ?G ex_cast ex_model ?pre ex_state))"
    by (metis prod.collapse)
  have h2: "?G ex_model ''fc1.bias'' = Inr (Tensor 1)" by (simp add: ex_get_child)
  have h3: "shape (heap ex_state 1) \<noteq> shape ?v"
    by (simp add: ex_state_shapes ex_array_def)
  have d0: "data (heap (snd (load_weights ?G ex_cast ex_model ?pre ex_state)) 0) = ''W''"
    by (simp add: ex_get_child ex_state_shapes load_entry_tensor ex_array_def astype_def ex_cast_def)
  have d3: "heap (snd (load_weights ?G ex_cast ex_model ?pre ex_state)) 3 = heap ex_state 3"
    by (simp add: ex_get_child ex_state_shapes load_entry_tensor ex_array_def)
  have h4: "heap (snd (load_weights ?G ex_cast ex_model ?pre ex_state)) 0 \<noteq> heap ex_state 0"
    using d0 ex_state_data(1) [of 0] by auto
  have h5: "?G ex_model ''fc1.weight'' = Inr (Tensor 0)" by (simp add: ex_get_child)
  from abort_is_fail_fast [where gc = ?G and model = ex_model and cast = ex_cast
       and pre = ?pre and post = ?post, OF h1' h2 h3]
  have "load_weights ?G ex_cast ex_model (?pre @ (''fc1.bias'', ?v) # ?post) ex_state
           = (Some AssertionError, (snd (load_weights ?G ex_cast ex_model ?pre ex_state))
                \<lparr>stdout := stdout (snd (load_weights ?G ex_cast ex_model ?pre ex_state))
                     @ [(shape ?v, Tensor 1, ''fc1.bias'')]\<rparr>)"
    by simp
  then have "fst (load_weights ?G ex_cast ex_model (?pre @ (''fc1.bias'', ?v) # ?post) ex_state)
               = Some AssertionError"
    and "heap (snd (load_weights ?G ex_cast ex_model (?pre @ (''fc1.bias'', ?v) # ?post) ex_state))
               = heap (snd (load_weights ?G ex_cast ex_model ?pre ex_state))"
    by simp_all
  with h1 h2 h3 h4 h5 d0 d3 show ?thesis by simp
qed

subsection \<open>C5: loading twice is loading once\<close>

text \<open>
  C5. Running the pass again with the same checkpoint on the state the first pass left
  ends the same way (the same exception, or none) and leaves every tensor as the first
  pass left it.
\<close>

theorem binding_idempotent:
  "fst (load_weights gc cast model kvs (snd (load_weights gc cast model kvs s)))
     = fst (load_weights gc cast model kvs s)
   \<and> heap (snd (load_weights gc cast model kvs (snd (load_weights gc cast model kvs s))))
     = heap (snd (load_weights gc cast model kvs s))"
proof -
  let ?s1 = "snd (load_weights gc cast model kvs s)"
  have shapes: "\<forall>a. shape (heap s a) = shape (heap ?s1 a)"
    by (simp add: load_weights_shape)
  from load_weights_same_shapes [OF shapes, of gc cast model kvs]
  have r: "fst (load_weights gc cast model kvs s) = fst (load_weights gc cast model kvs ?s1)"
    and h: "\<forall>b. heap ?s1 b = heap (snd (load_weights gc cast model kvs ?s1)) b
         \<or> (heap ?s1 b = heap s b \<and> heap (snd (load_weights gc cast model kvs ?s1)) b = heap ?s1 b)"
    by simp_all
  have "heap (snd (load_weights gc cast model kvs ?s1)) = heap ?s1"
  proof
    fix b
    from h have "heap ?s1 b = heap (snd (load_weights gc cast model kvs ?s1)) b
         \<or> (heap ?s1 b = heap s b \<and> heap (snd (load_weights gc cast model kvs ?s1)) b = heap ?s1 b)"
      by simp
    then show "heap (snd (load_weights gc cast model kvs ?s1)) b = heap ?s1 b" by auto
  qed
  with r show ?thesis by simp
qed

subsection \<open>C6: what the pass prints\<close>

text \<open>
  C6, as amended. The pass prints one line for each entry it gets to print, in the
  order of the checkpoint: the shape of the checkpoint tensor, the leaf (\<^verbatim>\<open>None\<close> for a
  skipped entry) and the key. A pass that runs to its end has printed the line of
  every entry; a pass stopped by the failed assertion has printed the lines up to and
  including the offending entry's. Nothing else is printed: no counts, no summary.
\<close>

theorem stdout_is_one_line_per_entry:
  assumes "load_weights gc cast model kvs s = (r, s')"
  shows "(\<exists>n\<le>length kvs. stdout s' = stdout s @ map (print_line gc model) (take n kvs))
       \<and> (r = None \<longrightarrow> stdout s' = stdout s @ map (print_line gc model) kvs)
       \<and> (r = Some AssertionError \<and> (\<forall>k. gc model k \<noteq> Inl AssertionError) \<longrightarrow>
            (\<exists>n<length kvs. stdout s' = stdout s @ map (print_line gc model) (take (Suc n) kvs)
               \<and> (\<exists>a. gc model (fst (kvs ! n)) = Inr (Tensor a)
                       \<and> shape (heap s a) \<noteq> shape (snd (kvs ! n)))))"
  using assms load_weights_stdout_prefix [of kvs gc cast model s]
    load_weights_stdout_complete [of gc cast model kvs s]
    load_weights_stdout_assertion [of gc cast model kvs s]
  by simp

text \<open>
  An instance: a pass that stops at its third entry, and a pass that runs to its end.
\<close>

theorem stdout_is_one_line_per_entry_witness:
  "fst (load_weights (get_child TypeError) ex_cast ex_model
         [(''fc1.weight'', ex_array [3072, 768] ''W''),
          (''decoder.block_9.nonexistent'', ex_array [1] ''X''),
          (''fc1.bias'', ex_array [768] ''B''),
          (''fc2.bias'', ex_array [768] ''D'')] ex_state) = Some AssertionError
   \<and> (\<forall>k. get_child TypeError ex_model k \<noteq> Inl AssertionError)
   \<and> stdout (snd (load_weights (get_child TypeError) ex_cast ex_model
         [(''fc1.weight'', ex_array [3072, 768] ''W''),
          (''decoder.block_9.nonexistent'', ex_array [1] ''X''),
          (''fc1.bias'', ex_array [768] ''B''),
          (''fc2.bias'', ex_array [768] ''D'')] ex_state))
       = [([3072, 768], Tensor 0, ''fc1.weight''),
          ([1], PyNone, ''decoder.block_9.nonexistent''),
          ([768], Tensor 1, ''fc1.bias'')]
   \<and> fst (load_weights (get_child TypeError) ex_cast ex_model
         [(''fc1.weight'', ex_array [3072, 768] ''W''),
          (''decoder.block_9.nonexistent'', ex_array [1] ''X'')] ex_state) = None
   \<and> stdout (snd (load_weights (get_child TypeError) ex_cast ex_model
         [(''fc1.weight'', ex_array [3072, 768] ''W''),
          (''decoder.block_9.nonexistent'', ex_array [1] ''X'')] ex_state))
       = [([3072, 768], Tensor 0, ''fc1.weight''),
          ([1], PyNone, ''decoder.block_9.nonexistent'')]"
proof -
  let ?G = "get_child TypeError"
  let ?kvs1 = "[(''fc1.weight'', ex_array [3072, 768] ''W''),
          (''decoder.block_9.nonexistent'', ex_array [1] ''X''),
          (''fc1.bias'', ex_array [768] ''B''),
          (''fc2.bias'', ex_array [768] ''D'')]"
  let ?kvs2 = "[(''fc1.weight'', ex_array [3072, 768] ''W''),
          (''decoder.block_9.nonexistent'', ex_array [1] ''X'')]"
  have never: "\<forall>k. ?G ex_model k \<noteq> Inl AssertionError"
    using get_child_error [of TypeError ex_model _ AssertionError] by auto
  have r1: "fst (load_weights ?G ex_cast ex_model ?kvs1 ex_state) = Some AssertionError"
    by (simp add: ex_get_child ex_state_shapes load_entry_tensor
          load_entry_skip [where e = AttributeError] ex_array_def)
  have r2: "fst (load_weights ?G ex_cast ex_model ?kvs2 ex_state) = None"
    by (simp add: ex_get_child ex_state_shapes load_entry_tensor
          load_entry_skip [where e = AttributeError] ex_array_def)
  have lines: "map (print_line ?G ex_model) ?kvs1
     = [([3072, 768], Tensor 0, ''fc1.weight''),
        ([1], PyNone, ''decoder.block_9.nonexistent''),
        ([768], Tensor 1, ''fc1.bias''),
        ([768], Tensor 3, ''fc2.bias'')]"
    by (simp add: print_line_def try_get_child_def ex_get_child ex_array_def)
  have o2: "stdout (snd (load_weights ?G ex_cast ex_model ?kvs2 ex_state))
              = stdout ex_state @ map (print_line ?G ex_model) ?kvs2"
    using stdout_is_one_line_per_entry [of ?G ex_cast ex_model ?kvs2 ex_state None
        "snd (load_weights ?G ex_cast ex_model ?kvs2 ex_state)"] r2
    by (metis prod.collapse)
  have o1: "stdout (snd (load_weights ?G ex_cast ex_model ?kvs1 ex_state))
       = [([3072, 768], Tensor 0, ''fc1.weight''),
          ([1], PyNone, ''decoder.block_9.nonexistent''),
          ([768], Tensor 1, ''fc1.bias'')]"
    by (simp add: ex_get_child ex_state_shapes load_entry_tensor
          load_entry_skip [where e = AttributeError] ex_array_def ex_stdout)
  from o2 lines have "stdout (snd (load_weights ?G ex_cast ex_model ?kvs2 ex_state))
       = [([3072, 768], Tensor 0, ''fc1.weight''),
          ([1], PyNone, ''decoder.block_9.nonexistent'')]"
    by (simp add: ex_stdout)
  with never r1 r2 o1 show ?thesis by blast
qed

text \<open>
  C6 as stated fails: on the empty checkpoint nothing at all is printed, and on a
  checkpoint with one key that binds and one that does not, the output is the two
  lines of the two entries.
\<close>

theorem no_summary_report_counterexample:
  "stdout (snd (load_weights (get_child TypeError) ex_cast ex_model [] ex_state)) = []
   \<and> fst (load_weights (get_child TypeError) ex_cast ex_model
         [(''fc1.weight'', ex_array [3072, 768] ''W''),
          (''decoder.block_9.nonexistent'', ex_array [1] ''X'')] ex_state) = None
   \<and> stdout (snd (load_weights (get_child TypeError) ex_cast ex_model
         [(''fc1.weight'', ex_array [3072, 768] ''W''),
          (''decoder.block_9.nonexistent'', ex_array [1] ''X'')] ex_state))
       = [([3072, 768], Tensor 0, ''fc1.weight''),
          ([1], PyNone, ''decoder.block_9.nonexistent'')]"
  by (simp add: ex_get_child ex_state_shapes load_entry_tensor
        load_entry_skip [where e = AttributeError] ex_array_def ex_stdout)

subsection \<open>C7: a key outside the segment grammar\<close>

text \<open>
  C7, as amended. No key is rejected for its syntax: every key is split at the dots
  and navigated. On a model whose attribute names and dict keys are identifiers, a
  key that violates the grammar does not resolve, the exception being one of the
  resolver's own; when it is \<^verbatim>\<open>AttributeError\<close>, \<^verbatim>\<open>KeyError\<close> or \<^verbatim>\<open>IndexError\<close> the
  entry is skipped as any unresolved key is, and the pass goes on.
\<close>

theorem malformed_key_is_navigated:
  assumes "names_ok model" and "\<not> valid_path k"
  shows "\<exists>e. get_child wk model k = Inl e
           \<and> (e = AttributeError \<or> e = KeyError \<or> e = IndexError \<or> e = wk)
           \<and> load_entry (get_child wk) cast model (k, v) s
               = (if e = AttributeError \<or> e = KeyError \<or> e = IndexError
                  then (None, s\<lparr>stdout := stdout s @ [(shape v, PyNone, k)]\<rparr>)
                  else (Some e, s))"
proof -
  from assms(2) have "\<not> list_all valid_segment (split_dot k)" by (simp add: valid_path_def)
  from walk_invalid_path [OF assms(1) this, of wk]
  obtain e where e: "get_child wk model k = Inl e" by (auto simp: get_child_def)
  from get_child_error [OF e]
  have cls: "e = AttributeError \<or> e = KeyError \<or> e = IndexError \<or> e = wk" .
  have "load_entry (get_child wk) cast model (k, v) s
               = (if e = AttributeError \<or> e = KeyError \<or> e = IndexError
                  then (None, s\<lparr>stdout := stdout s @ [(shape v, PyNone, k)]\<rparr>)
                  else (Some e, s))"
    using e by (simp add: load_entry_def try_get_child_def)
  with e cls show ?thesis by blast
qed

text \<open>
  An instance: the key \<^verbatim>\<open>fc1..weight\<close>, whose second segment is empty.
\<close>

theorem malformed_key_is_navigated_witness:
  "names_ok ex_model \<and> \<not> valid_path ''fc1..weight''
   \<and> get_child TypeError ex_model ''fc1..weight'' = Inl AttributeError
   \<and> load_entry (get_child TypeError) ex_cast ex_model (''fc1..weight'', ex_array [3072, 768] ''W'') ex_state
       = (None, ex_state\<lparr>stdout := [([3072, 768], PyNone, ''fc1..weight'')]\<rparr>)"
proof -
  from malformed_key_is_navigated [OF ex_model_names_ok ex_invalid_path,
      of TypeError ex_cast "ex_array [3072, 768] ''W''" ex_state]
  obtain e where e: "get_child TypeError ex_model ''fc1..weight'' = Inl e"
    "load_entry (get_child TypeError) ex_cast ex_model (''fc1..weight'', ex_array [3072, 768] ''W'') ex_state
               = (if e = AttributeError \<or> e = KeyError \<or> e = IndexError
                  then (None, ex_state\<lparr>stdout := stdout ex_state @ [(shape (ex_array [3072, 768] ''W''), PyNone, ''fc1..weight'')]\<rparr>)
                  else (Some e, ex_state))"
    by blast
  from e(1) have "e = AttributeError" by (simp add: ex_get_child)
  with e ex_model_names_ok ex_invalid_path show ?thesis
    by (simp add: ex_stdout ex_array_def)
qed

text \<open>
  C7 as stated fails: \<^verbatim>\<open>fc1..weight\<close> violates the grammar and is skipped, no
  exception raised.
\<close>

theorem malformed_key_skipped_counterexample:
  "\<not> valid_path ''fc1..weight''
   \<and> load_entry (get_child TypeError) ex_cast ex_model (''fc1..weight'', ex_array [3072, 768] ''W'') ex_state
       = (None, ex_state\<lparr>stdout := [([3072, 768], PyNone, ''fc1..weight'')]\<rparr>)"
  using ex_invalid_path
  by (simp add: load_entry_skip [where e = AttributeError] ex_get_child ex_stdout ex_array_def)

subsection \<open>C9: bound leaves hold float32\<close>



subsection \<open>C10: the model has the text encoder only\<close>

text \<open>
  C10. The object \<^verbatim>\<open>StableDiffusion()\<close> has the one attribute \<^verbatim>\<open>cond_stage_model\<close>:
  reading \<^verbatim>\<open>model\<close> or \<^verbatim>\<open>first_stage_model\<close> raises \<^verbatim>\<open>AttributeError\<close>. So calling it
  raises \<^verbatim>\<open>AttributeError\<close> for every input (after the random context is drawn), and a
  checkpoint key that starts with \<^verbatim>\<open>model.\<close> or \<^verbatim>\<open>first_stage_model.\<close> is skipped: the
  iteration prints it with \<^verbatim>\<open>None\<close> and writes to no tensor, and the program's pass
  over a checkpoint of such keys only runs to its end on the heap the constructor left.
\<close>

theorem StableDiffusion_lacks_model:
  "(\<exists>tm. fst (StableDiffusion st) = PyObj [(''cond_stage_model'', tm)])
   \<and> getattr (fst (StableDiffusion st)) ''model'' = Inl AttributeError
   \<and> getattr (fst (StableDiffusion st)) ''first_stage_model'' = Inl AttributeError
   \<and> StableDiffusion_call uniform unet (fst (StableDiffusion st)) x rng
       = (Inl AttributeError, snd (uniform [1, 77, 768] rng))
   \<and> load_entry (get_child wk) cast (fst (StableDiffusion st)) (''model.'' @ rest, v) s
       = (None, s\<lparr>stdout := stdout s @ [(shape v, PyNone, ''model.'' @ rest)]\<rparr>)
   \<and> load_entry (get_child wk) cast (fst (StableDiffusion st)) (''first_stage_model.'' @ rest, v) s
       = (None, s\<lparr>stdout := stdout s @ [(shape v, PyNone, ''first_stage_model.'' @ rest)]\<rparr>)
   \<and> fst (main_load (get_child wk) cast h0
          (map (\<lambda>(b, rest, v). ((if b then ''model.'' else ''first_stage_model.'') @ rest, v)) xs))
       = None
   \<and> heap (snd (main_load (get_child wk) cast h0
          (map (\<lambda>(b, rest, v). ((if b then ''model.'' else ''first_stage_model.'') @ rest, v)) xs)))
       = snd (snd (StableDiffusion (0, h0)))"
proof -
  obtain tm where root: "fst (StableDiffusion st) = PyObj [(''cond_stage_model'', tm)]"
    using StableDiffusion_root by blast
  have a1: "getattr (fst (StableDiffusion st)) ''model'' = Inl AttributeError"
    by (simp add: root)
  have a2: "getattr (fst (StableDiffusion st)) ''first_stage_model'' = Inl AttributeError"
    by (simp add: root)
  have call: "StableDiffusion_call uniform unet (fst (StableDiffusion st)) x rng
       = (Inl AttributeError, snd (uniform [1, 77, 768] rng))"
    by (simp add: StableDiffusion_call_def a1 split: prod.splits)
  have g1: "get_child wk (fst (StableDiffusion st)) (''model.'' @ rest) = Inl AttributeError"
    unfolding get_child_def split_dot_model
    by (simp add: root is_index_def is_digit_def)
  have g2: "get_child wk (fst (StableDiffusion st)) (''first_stage_model.'' @ rest) = Inl AttributeError"
    unfolding get_child_def split_dot_first_stage_model
    by (simp add: root is_index_def is_digit_def)
  have e1: "load_entry (get_child wk) cast (fst (StableDiffusion st)) (''model.'' @ rest, v) s
       = (None, s\<lparr>stdout := stdout s @ [(shape v, PyNone, ''model.'' @ rest)]\<rparr>)"
    using load_entry_skip [of "get_child wk" "fst (StableDiffusion st)" "''model.'' @ rest"
        AttributeError cast v s] g1 by simp
  have e2: "load_entry (get_child wk) cast (fst (StableDiffusion st)) (''first_stage_model.'' @ rest, v) s
       = (None, s\<lparr>stdout := stdout s @ [(shape v, PyNone, ''first_stage_model.'' @ rest)]\<rparr>)"
    using load_entry_skip [of "get_child wk" "fst (StableDiffusion st)" "''first_stage_model.'' @ rest"
        AttributeError cast v s] g2 by simp
  note pass = main_load_absent_branches [of wk cast h0 xs]
  from root a1 a2 call e1 e2 pass show ?thesis by blast
qed

end
